theory Spec2Isabelle
  imports Complex_Main "HOL-Library.Word"
begin

section \<open>The data of main.go\<close>

text \<open>
  Go's \<^verbatim>\<open>int\<close> is a signed machine integer, of 64 bits on a 64-bit platform. It is
  a \<open>64 word\<close>: \<open>+\<close> wraps, \<open>sint\<close> reads the signed value, and the comparisons
  of the source compare \<open>sint\<close>.
\<close>

type_synonym go_int = "64 word"

text \<open>
  \<^verbatim>\<open>circuit.Gate\<close> is an interface of the revsynth library. main.go reads a gate only
  through \<^verbatim>\<open>TypeName()\<close>, \<^verbatim>\<open>TargetBits()\<close> and \<^verbatim>\<open>ControlBits()\<close>; a gate is the
  record of what the three methods return.
\<close>

record Gate =
  TypeName :: string
  TargetBits :: "go_int list"
  ControlBits :: "go_int list"

text \<open>
  \<^verbatim>\<open>log.Fatalln\<close> prints and ends the process with \<^verbatim>\<open>os.Exit(1)\<close>. In a function
  that computes a value it is the \<open>Inl\<close> branch of the result.
\<close>

datatype error = UnknownGateType string

section \<open>strconv.Itoa and strings.Join\<close>

text \<open>
  The two standard-library functions the renderings use. \<open>Itoa\<close> is the decimal
  rendering of a signed integer, with a leading minus sign for a negative one;
  \<open>Join\<close> puts the separator between consecutive elements.
\<close>

definition digit :: "nat \<Rightarrow> char" where
  "digit d = ''0123456789'' ! d"

fun formatDec :: "nat \<Rightarrow> string" where
  "formatDec n = (if n < 10 then [digit n] else formatDec (n div 10) @ [digit (n mod 10)])"

declare formatDec.simps [simp del]

definition Itoa :: "go_int \<Rightarrow> string" where
  "Itoa i = (if sint i < 0 then CHR ''-'' # formatDec (nat (- sint i)) else formatDec (nat (sint i)))"

fun Join :: "string list \<Rightarrow> string \<Rightarrow> string" where
  "Join [] sep = []"
| "Join [x] sep = x"
| "Join (x # y # ys) sep = x @ sep @ Join (y # ys) sep"

section \<open>vectorToStr\<close>

text \<open>
  \<^verbatim>\<open>
  func vectorToStr(v []int) string {
      vss := make([]string, 0)
      for _, el := range v {
          vss = append(vss, strconv.Itoa(el))
      }
      return "[" + strings.Join(vss, ", ") + "]"
  }
  \<close>
  The range loop is a left fold that appends to \<open>vss\<close>.
\<close>

definition vectorToStr :: "go_int list \<Rightarrow> string" where
  "vectorToStr v =
     (let vss = foldl (\<lambda>vss el. vss @ [Itoa el]) [] v
      in ''['' @ Join vss '', '' @ '']'')"

section \<open>gatesToStr\<close>

text \<open>
  \<^verbatim>\<open>
  func gatesToStr(gates []circuit.Gate) string {
      gatesSS := make([]string, 0)
      for i := len(gates) - 1; i >= 0; i-- {
          gateS := gates[i].TypeName() + "(" + vectorToStr(gates[i].TargetBits()) + ", "
                   + vectorToStr(gates[i].ControlBits()) + ")"
          gatesSS = append(gatesSS, gateS)
      }
      return strings.Join(gatesSS, ", ")
  }
  \<close>
  The loop counts \<open>i\<close> down from \<open>len(gates) - 1\<close> while \<open>i \<ge> 0\<close>; \<open>i\<close> is an
  integer that ends at \<open>-1\<close>. Every index the loop reads is in range, so \<open>gates ! nat i\<close>
  is the element Go reads.
\<close>

definition gateS :: "Gate \<Rightarrow> string" where
  "gateS g = TypeName g @ ''('' @ vectorToStr (TargetBits g) @ '', '' @ vectorToStr (ControlBits g) @ '')''"

function gatesToStr_loop :: "Gate list \<Rightarrow> int \<Rightarrow> string list \<Rightarrow> string list" where
  "gatesToStr_loop gates i gatesSS =
     (if i \<ge> 0 then gatesToStr_loop gates (i - 1) (gatesSS @ [gateS (gates ! nat i)])
      else gatesSS)"
  by pat_completeness auto
termination
  by (relation "measure (\<lambda>(gates, i, gatesSS). nat (i + 1))") auto

declare gatesToStr_loop.simps [simp del]

definition gatesToStr :: "Gate list \<Rightarrow> string" where
  "gatesToStr gates = Join (gatesToStr_loop gates (int (length gates) - 1) []) '', ''"

section \<open>calcQuantumCost\<close>

text \<open>
  \<^verbatim>\<open>
  func calcQuantumCost(gates []circuit.Gate) int {
      qc := 0
      for _, gate := range gates {
          switch gate.TypeName() {
          case "fredkin": qc += 5
          case "cnot":    qc += 1
          default:        log.Fatalln("unknown gate type:", gate.TypeName())
          }
      }
      return qc
  }
  \<close>
  The accumulator \<open>qc\<close> is threaded through the loop; the default case ends the
  process at the first gate it meets, with that gate's type name.
\<close>

fun calcQuantumCost_loop :: "go_int \<Rightarrow> Gate list \<Rightarrow> error + go_int" where
  "calcQuantumCost_loop qc [] = Inr qc"
| "calcQuantumCost_loop qc (gate # gates) =
     (if TypeName gate = ''fredkin'' then calcQuantumCost_loop (qc + 5) gates
      else if TypeName gate = ''cnot'' then calcQuantumCost_loop (qc + 1) gates
      else Inl (UnknownGateType (TypeName gate)))"

definition calcQuantumCost :: "Gate list \<Rightarrow> error + go_int" where
  "calcQuantumCost gates = calcQuantumCost_loop 0 gates"

section \<open>The records of main.go and of the calls it makes\<close>

text \<open>
  \<^verbatim>\<open>AlgConfig\<close>, \<^verbatim>\<open>Input\<close> and \<^verbatim>\<open>Solution\<close> are the structs of main.go. The three
  \<^verbatim>\<open>float64\<close> fields are only ever copied, never computed with: their type is the
  parameter \<open>'f\<close>.
\<close>

record 'f AlgConfig =
  NumOfAnts :: go_int
  NumOfIterations :: go_int
  Alpha :: 'f
  Beta :: 'f
  EvaporationRate :: 'f
  LocalLoops :: go_int
  SearchDepth :: go_int

record 'f Input =
  TargetQuantumCost :: go_int
  AcoConfigs :: "'f AlgConfig list"
  InputTT :: "go_int list list"
  TargetVector :: "go_int list"

record Solution =
  QuantumCost :: go_int
  Solution_TargetVector :: "go_int list"
  Solution_Gates :: "Gate list"

text \<open>
  The types of the revsynth library that main.go builds or reads, with the fields it
  names: \<^verbatim>\<open>aco.Config\<close> (built field by field), \<^verbatim>\<open>circuit.TruthVector\<close> (built
  from the input), the two gate factories (opaque values of the library), and the
  result of \<^verbatim>\<open>Synthesise\<close>, of which main.go reads \<^verbatim>\<open>Complexity\<close> and \<^verbatim>\<open>Gates\<close>.
  The types of the fields follow from the assignments in main.go, except two.
\<close>

text \<open>
  Modelled from the spec: the declaration of \<^verbatim>\<open>aco.Config\<close> is not in main.go, which
  assigns the untyped constant \<^verbatim>\<open>depositStrengthDefault = 100\<close> to \<^verbatim>\<open>DepositStrength\<close>;
  the field holds that number.
\<close>

record 'f Config =
  Config_NumOfAnts :: go_int
  Config_NumOfIterations :: go_int
  Config_Alpha :: 'f
  Config_Beta :: 'f
  Config_EvaporationRate :: 'f
  Config_DepositStrength :: int
  Config_LocalLoops :: go_int
  Config_SearchDepth :: go_int

definition depositStrengthDefault :: int where
  "depositStrengthDefault = 100"

datatype GateFactory = NewCnotGateFactory | NewFredkinGateFactory

record TruthVector =
  Inputs :: "go_int list list"
  Vector :: "go_int list"

text \<open>
  Modelled from the spec: the declaration of the result of \<^verbatim>\<open>Synthesise\<close> is not in
  main.go, which compares \<^verbatim>\<open>Complexity\<close> with \<^verbatim>\<open>0\<close> and logs it. The spec gives the
  synthesizer the interface \<^verbatim>\<open>Synthesise(...) -> {complexity: integer, gates: ...}\<close>:
  \<^verbatim>\<open>Complexity\<close> is a Go \<^verbatim>\<open>int\<close>.
\<close>

record SynthesisResult =
  Complexity :: go_int
  Gates :: "Gate list"

text \<open>A Go \<^verbatim>\<open>error\<close> value that is not \<^verbatim>\<open>nil\<close> is its message; \<^verbatim>\<open>nil\<close> is \<open>None\<close>.\<close>

type_synonym go_error = string

text \<open>
  The two collaborators are outside main.go: the synthesizer
  (\<^verbatim>\<open>aco.NewSynthesizer(conf, factories, logger).Synthesise(tv)\<close>, a stochastic search)
  and the repository (\<^verbatim>\<open>repo.SaveSolution(ctx, s)\<close>, a remote table). Both are
  parameters of the model: functions of their arguments and of a world \<open>'w\<close> that
  they may read and change, which stands for everything main.go does not see
  (the random source, the table, the network).
\<close>

record ('f, 'w) env =
  Synthesise :: "'f Config \<Rightarrow> GateFactory list \<Rightarrow> TruthVector \<Rightarrow> 'w \<Rightarrow> SynthesisResult \<times> 'w"
  SaveSolution :: "Solution \<Rightarrow> 'w \<Rightarrow> go_error option \<times> 'w"

text \<open>
  What main does that can be seen from outside, in the order it does it: the lines
  it logs, the calls it makes to the two collaborators (with what they returned),
  and the two fatal log lines after which the process exits.
\<close>

datatype 'f event =
    LogRunningNextIteration
  | LogRunningNextConfig
  | CallSynthesise "'f Config" "GateFactory list" TruthVector SynthesisResult
  | LogSkippingComplexity go_int
  | LogSkippingQuantumCost go_int
  | CallSaveSolution Solution "go_error option"
  | FatalUnknownGateType string
  | FatalFailedToSave go_error

record ('f, 'w) state =
  world :: 'w
  trace :: "'f event list"

definition emit :: "'f event \<Rightarrow> ('f, 'w) state \<Rightarrow> ('f, 'w) state" where
  "emit ev s = s\<lparr>trace := trace s @ [ev]\<rparr>"

datatype status = Running | Exited

section \<open>main\<close>

text \<open>
  The body of the inner loop, for one \<^verbatim>\<open>acoConfig\<close>:
  \<^verbatim>\<open>
  log.Println("Running next config")
  conf := aco.Config{NumOfAnts: acoConfig.NumOfAnts, ..., DepositStrength: depositStrengthDefault, ...}
  synth := aco.NewSynthesizer(conf,
      []circuit.GateFactory{circuit.NewCnotGateFactory(), circuit.NewFredkinGateFactory()},
      logging.NewLogger(logging.LevelInfo))
  res := synth.Synthesise(circuit.TruthVector{Inputs: in.InputTT, Vector: in.TargetVector})
  if res.Complexity > 0 {
      log.Println("Skipping as complexity is", res.Complexity)
      continue
  }
  qc := calcQuantumCost(res.Gates)
  if qc > in.TargetQuantumCost {
      log.Println("Skipping as quantum cost is", qc)
      continue
  }
  err := repo.SaveSolution(ctx, Solution{QuantumCost: qc, TargetVector: in.TargetVector, Gates: res.Gates})
  if err != nil {
      log.Fatalln("Failed to save:", err)
  }
  \<close>
  \<^verbatim>\<open>continue\<close> and the end of the body return \<open>Running\<close>; the two \<^verbatim>\<open>log.Fatalln\<close>
  (the one inside \<^verbatim>\<open>calcQuantumCost\<close> and the one after a failed save) return
  \<open>Exited\<close>. The struct literal \<^verbatim>\<open>aco.Config{...}\<close>, the slice of the two
  factories and the literal \<^verbatim>\<open>circuit.TruthVector{...}\<close> are \<open>main_conf\<close>,
  \<open>main_factories\<close> and \<open>main_truthVector\<close>. The logger handed to
  \<^verbatim>\<open>NewSynthesizer\<close> is a constant of the library and is not modelled.
\<close>

definition main_conf :: "'f AlgConfig \<Rightarrow> 'f Config" where
  "main_conf acoConfig =
     \<lparr>Config_NumOfAnts = NumOfAnts acoConfig,
      Config_NumOfIterations = NumOfIterations acoConfig,
      Config_Alpha = Alpha acoConfig,
      Config_Beta = Beta acoConfig,
      Config_EvaporationRate = EvaporationRate acoConfig,
      Config_DepositStrength = depositStrengthDefault,
      Config_LocalLoops = LocalLoops acoConfig,
      Config_SearchDepth = SearchDepth acoConfig\<rparr>"

definition main_factories :: "GateFactory list" where
  "main_factories = [NewCnotGateFactory, NewFredkinGateFactory]"

definition main_truthVector :: "'f Input \<Rightarrow> TruthVector" where
  "main_truthVector inp = \<lparr>Inputs = InputTT inp, Vector = TargetVector inp\<rparr>"

definition main_config_body ::
  "('f, 'w) env \<Rightarrow> 'f Input \<Rightarrow> 'f AlgConfig \<Rightarrow> ('f, 'w) state \<Rightarrow> status \<times> ('f, 'w) state" where
  "main_config_body env inp acoConfig s0 =
     (let s1 = emit LogRunningNextConfig s0;
          conf = main_conf acoConfig;
          (res, w1) = Synthesise env conf main_factories (main_truthVector inp) (world s1);
          s2 = emit (CallSynthesise conf main_factories (main_truthVector inp) res) (s1\<lparr>world := w1\<rparr>)
      in if sint (Complexity res) > 0
         then (Running, emit (LogSkippingComplexity (Complexity res)) s2)
         else (case calcQuantumCost (Gates res) of
                 Inl (UnknownGateType name) \<Rightarrow> (Exited, emit (FatalUnknownGateType name) s2)
               | Inr qc \<Rightarrow>
                   if sint qc > sint (TargetQuantumCost inp)
                   then (Running, emit (LogSkippingQuantumCost qc) s2)
                   else (let sol = \<lparr>QuantumCost = qc,
                                    Solution_TargetVector = TargetVector inp,
                                    Solution_Gates = Gates res\<rparr>;
                             (err, w2) = SaveSolution env sol (world s2);
                             s3 = emit (CallSaveSolution sol err) (s2\<lparr>world := w2\<rparr>)
                         in (case err of
                               None \<Rightarrow> (Running, s3)
                             | Some e \<Rightarrow> (Exited, emit (FatalFailedToSave e) s3)))))"

text \<open>
  \<^verbatim>\<open>for _, acoConfig := range in.AcoConfigs { ... }\<close>: the body for each
  configuration in slice order; an exit of the process ends the loop.
\<close>

fun main_configs ::
  "('f, 'w) env \<Rightarrow> 'f Input \<Rightarrow> 'f AlgConfig list \<Rightarrow> ('f, 'w) state \<Rightarrow> status \<times> ('f, 'w) state" where
  "main_configs env inp [] s = (Running, s)"
| "main_configs env inp (acoConfig # rest) s =
     (case main_config_body env inp acoConfig s of
        (Exited, s') \<Rightarrow> (Exited, s')
      | (Running, s') \<Rightarrow> main_configs env inp rest s')"

text \<open>
  The body of the outer \<^verbatim>\<open>for { ... }\<close>, one round:
  \<^verbatim>\<open>log.Println("Running next iteration")\<close> and the loop over the configurations.
  Before the loop main reads the input (\<^verbatim>\<open>readInput\<close>) and builds the repository
  (\<^verbatim>\<open>createDDBRepository\<close>); what they return are the parameters \<open>inp\<close> and
  \<open>env\<close>.
\<close>

definition main_iteration ::
  "('f, 'w) env \<Rightarrow> 'f Input \<Rightarrow> ('f, 'w) state \<Rightarrow> status \<times> ('f, 'w) state" where
  "main_iteration env inp s = main_configs env inp (AcoConfigs inp) (emit LogRunningNextIteration s)"

text \<open>
  The outer loop has no condition and no \<^verbatim>\<open>break\<close>: it ends only when the process
  exits. \<open>main_loop\<close> is the loop itself; it returns the state at the exit, and
  \<open>None\<close> is the loop that runs forever. \<open>main_rounds n\<close> is the same loop
  observed after at most \<open>n\<close> rounds.
\<close>

partial_function (option) main_loop ::
  "('f, 'w) env \<Rightarrow> 'f Input \<Rightarrow> ('f, 'w) state \<Rightarrow> ('f, 'w) state option" where
  "main_loop env inp s =
     (case main_iteration env inp s of
        (Exited, s') \<Rightarrow> Some s'
      | (Running, s') \<Rightarrow> main_loop env inp s')"

fun main_rounds ::
  "('f, 'w) env \<Rightarrow> 'f Input \<Rightarrow> nat \<Rightarrow> ('f, 'w) state \<Rightarrow> status \<times> ('f, 'w) state" where
  "main_rounds env inp 0 s = (Running, s)"
| "main_rounds env inp (Suc n) s =
     (case main_iteration env inp s of
        (Exited, s') \<Rightarrow> (Exited, s')
      | (Running, s') \<Rightarrow> main_rounds env inp n s')"

section \<open>Observing a run\<close>

text \<open>
  The functions below read a trace; they are what the properties of main are stated
  with. \<open>new_events s r\<close> are the events that a run from state \<open>s\<close> with outcome
  \<open>r\<close> has added to the trace, and \<open>synthesised env inp c s\<close> is the result that
  the synthesizer returns to the loop body for configuration \<open>c\<close> in state \<open>s\<close>.
\<close>

definition new_events :: "('f, 'w) state \<Rightarrow> status \<times> ('f, 'w) state \<Rightarrow> 'f event list" where
  "new_events s r = drop (length (trace s)) (trace (snd r))"

definition synthesised :: "('f, 'w) env \<Rightarrow> 'f Input \<Rightarrow> 'f AlgConfig \<Rightarrow> ('f, 'w) state \<Rightarrow> SynthesisResult" where
  "synthesised env inp c s =
     fst (Synthesise env (main_conf c) main_factories (main_truthVector inp) (world s))"

text \<open>
  \<open>synth_calls\<close> are the arguments of the calls to the synthesizer, in order, and
  \<open>saves_of\<close> the solutions handed to the repository, in order.
  \<open>alternating False evs\<close> holds when the calls to the synthesizer and the ends of
  the evaluate-and-filter steps (a skip, a call to the repository, or the fatal error of
  the cost evaluator) strictly alternate in \<open>evs\<close>, starting with a call: no call to
  the synthesizer starts while a step is pending. \<open>saves_follow None evs\<close> holds when
  every call to the repository in \<open>evs\<close> comes directly after a call to the
  synthesizer whose result has a complexity that is not positive and the gates that
  are saved. \<open>exit_shape st evs\<close> is the shape of the events of a run: a run that is
  still going has logged no fatal error and had no failed save; a run that has exited
  ends with the fatal error of the cost evaluator, or with a failed save and its fatal
  error, and has none before.
\<close>

fun is_fatal :: "'f event \<Rightarrow> bool" where
  "is_fatal (FatalUnknownGateType name) = True"
| "is_fatal (FatalFailedToSave e) = True"
| "is_fatal ev = False"

fun failed_save :: "'f event \<Rightarrow> bool" where
  "failed_save (CallSaveSolution sol (Some e)) = True"
| "failed_save ev = False"

fun synth_calls :: "'f event list \<Rightarrow> ('f Config \<times> GateFactory list \<times> TruthVector) list" where
  "synth_calls [] = []"
| "synth_calls (CallSynthesise conf fs tv res # evs) = (conf, fs, tv) # synth_calls evs"
| "synth_calls (ev # evs) = synth_calls evs"

fun saves_of :: "'f event list \<Rightarrow> Solution list" where
  "saves_of [] = []"
| "saves_of (CallSaveSolution sol err # evs) = sol # saves_of evs"
| "saves_of (ev # evs) = saves_of evs"

fun is_synth :: "'f event \<Rightarrow> bool" where
  "is_synth (CallSynthesise conf fs tv res) = True"
| "is_synth ev = False"

fun is_verdict :: "'f event \<Rightarrow> bool" where
  "is_verdict (LogSkippingComplexity c) = True"
| "is_verdict (LogSkippingQuantumCost qc) = True"
| "is_verdict (CallSaveSolution sol err) = True"
| "is_verdict (FatalUnknownGateType name) = True"
| "is_verdict ev = False"

fun alternating :: "bool \<Rightarrow> 'f event list \<Rightarrow> bool" where
  "alternating pending [] = (\<not> pending)"
| "alternating pending (ev # evs) =
     (if is_synth ev then \<not> pending \<and> alternating True evs
      else if is_verdict ev then pending \<and> alternating False evs
      else alternating pending evs)"

fun saves_follow :: "SynthesisResult option \<Rightarrow> 'f event list \<Rightarrow> bool" where
  "saves_follow prev [] = True"
| "saves_follow prev (CallSynthesise conf fs tv res # evs) = saves_follow (Some res) evs"
| "saves_follow prev (CallSaveSolution sol err # evs) =
     ((case prev of
         None \<Rightarrow> False
       | Some res \<Rightarrow> Solution_Gates sol = Gates res \<and> sint (Complexity res) \<le> 0)
      \<and> saves_follow None evs)"
| "saves_follow prev (ev # evs) = saves_follow None evs"

definition exit_shape :: "status \<Rightarrow> 'f event list \<Rightarrow> bool" where
  "exit_shape st evs =
     (case st of
        Running \<Rightarrow> list_all (\<lambda>ev. \<not> is_fatal ev \<and> \<not> failed_save ev) evs
      | Exited \<Rightarrow>
          (\<exists>pre. list_all (\<lambda>ev. \<not> is_fatal ev \<and> \<not> failed_save ev) pre \<and>
             ((\<exists>name. evs = pre @ [FatalUnknownGateType name]) \<or>
              (\<exists>sol e. evs = pre @ [CallSaveSolution sol (Some e), FatalFailedToSave e]))))"

section \<open>Concrete inputs\<close>

text \<open>Gates and gate sequences on which the functions are evaluated below.\<close>

definition cnot01 :: Gate where
  "cnot01 = \<lparr>TypeName = ''cnot'', TargetBits = [0], ControlBits = [1]\<rparr>"

definition fredkin012 :: Gate where
  "fredkin012 = \<lparr>TypeName = ''fredkin'', TargetBits = [0, 1], ControlBits = [2]\<rparr>"

definition toffoli012 :: Gate where
  "toffoli012 = \<lparr>TypeName = ''toffoli'', TargetBits = [0], ControlBits = [1, 2]\<rparr>"

text \<open>
  Synthesis results, a collaborator pair that always returns the same result and the
  same answer from the repository (its world counts the calls), two configurations,
  an input with target cost 3, and the state in which main enters its loop.
\<close>

definition const_env :: "SynthesisResult \<Rightarrow> go_error option \<Rightarrow> (real, nat) env" where
  "const_env res err =
     \<lparr>Synthesise = (\<lambda>conf fs tv w. (res, Suc w)),
      SaveSolution = (\<lambda>sol w. (err, Suc w))\<rparr>"

definition result_a :: SynthesisResult where
  "result_a = \<lparr>Complexity = 0, Gates = [cnot01]\<rparr>"

definition result_b :: SynthesisResult where
  "result_b = \<lparr>Complexity = 0, Gates = [fredkin012]\<rparr>"

definition result_c :: SynthesisResult where
  "result_c = \<lparr>Complexity = 2, Gates = [cnot01, cnot01]\<rparr>"

definition result_unknown :: SynthesisResult where
  "result_unknown = \<lparr>Complexity = 0, Gates = [cnot01, toffoli012]\<rparr>"

definition result_negative :: SynthesisResult where
  "result_negative = \<lparr>Complexity = - 1, Gates = [cnot01]\<rparr>"

definition conf_a :: "real AlgConfig" where
  "conf_a = \<lparr>NumOfAnts = 10, NumOfIterations = 20, Alpha = 1, Beta = 2, EvaporationRate = 1 / 2,
             LocalLoops = 3, SearchDepth = 4\<rparr>"

definition conf_b :: "real AlgConfig" where
  "conf_b = \<lparr>NumOfAnts = 5, NumOfIterations = 7, Alpha = 3, Beta = 1, EvaporationRate = 1 / 4,
             LocalLoops = 1, SearchDepth = 9\<rparr>"

definition rows2 :: "go_int list list" where
  "rows2 = [0, 0] # [0, 1] # [1, 0] # [1, 1] # []"

definition input3 :: "real Input" where
  "input3 = \<lparr>TargetQuantumCost = 3, AcoConfigs = [conf_a, conf_b],
             InputTT = rows2, TargetVector = [0, 1, 3, 2]\<rparr>"

definition start :: "(real, nat) state" where
  "start = \<lparr>world = 0, trace = []\<rparr>"

section \<open>The renderings\<close>

lemma foldl_snoc_map: "foldl (\<lambda>acc x. acc @ [f x]) acc xs = acc @ map f xs"
  by (induction xs arbitrary: acc) simp_all

lemma vectorToStr_eq: "vectorToStr v = ''['' @ Join (map Itoa v) '', '' @ '']''"
  by (simp add: vectorToStr_def foldl_snoc_map)

text \<open>
  \<open>formatDec\<close> is the decimal numeral: its characters are digits, and reading them
  back in base ten gives the number.
\<close>

lemma digit_of_char: "d < 10 \<Longrightarrow> of_char (digit d) = (48::nat) + d"
proof -
  assume "d < 10"
  then have "d \<in> {0, 1, 2, 3, 4, 5, 6, 7, 8, 9}" by auto
  then show ?thesis by (auto simp: digit_def)
qed

lemma formatDec_value:
  "foldl (\<lambda>a ch. 10 * a + (of_char ch - 48)) 0 (formatDec n) = n"
proof (induction n rule: formatDec.induct)
  case (1 n)
  show ?case
  proof (cases "n < 10")
    case True
    then show ?thesis by (subst formatDec.simps) (simp add: digit_of_char)
  next
    case False
    then have "foldl (\<lambda>a ch. 10 * a + (of_char ch - 48)) 0 (formatDec n)
             = 10 * (n div 10) + (of_char (digit (n mod 10)) - 48)"
      using "1.IH" by (subst formatDec.simps) simp
    then show ?thesis by (simp add: digit_of_char)
  qed
qed

text \<open>
  C5. The rendering of an integer vector is an opening bracket, the decimal
  renderings of the elements in order joined by a comma and a space, and a closing
  bracket; the vector 1, 0, 1 renders as [1, 0, 1] and the empty vector as [].
\<close>

theorem vectorToStr_render:
  "vectorToStr v = ''['' @ Join (map Itoa v) '', '' @ '']''
   \<and> vectorToStr [1, 0, 1] = ''[1, 0, 1]''
   \<and> vectorToStr [] = ''[]''"
proof -
  have "vectorToStr [1, 0, 1] = ''[1, 0, 1]''"
    by (simp add: vectorToStr_def Itoa_def formatDec.simps digit_def)
  moreover have "vectorToStr [] = ''[]''"
    by (simp add: vectorToStr_def)
  ultimately show ?thesis using vectorToStr_eq [of v] by simp
qed

lemma gatesToStr_loop_eq:
  "- 1 \<le> i \<Longrightarrow> i < int (length gates) \<Longrightarrow>
   gatesToStr_loop gates i acc = acc @ map gateS (rev (take (nat (i + 1)) gates))"
proof (induction gates i acc rule: gatesToStr_loop.induct)
  case (1 gates i gatesSS)
  show ?case
  proof (cases "i \<ge> 0")
    case True
    then have n: "nat (i + 1) = Suc (nat i)" by simp
    have lt: "nat i < length gates" using True "1.prems" by simp
    have "gatesToStr_loop gates i gatesSS =
          gatesToStr_loop gates (i - 1) (gatesSS @ [gateS (gates ! nat i)])"
      using True by (subst gatesToStr_loop.simps) simp
    also have "\<dots> = (gatesSS @ [gateS (gates ! nat i)]) @ map gateS (rev (take (nat (i - 1 + 1)) gates))"
      using True "1.prems" by (intro "1.IH") simp_all
    finally show ?thesis using lt by (simp add: n take_Suc_conv_app_nth)
  next
    case False
    then have "i = - 1" using "1.prems" by simp
    then show ?thesis by (subst gatesToStr_loop.simps) simp
  qed
qed

lemma gatesToStr_eq: "gatesToStr gates = Join (map gateS (rev gates)) '', ''"
  by (simp add: gatesToStr_def gatesToStr_loop_eq)

text \<open>
  C4. The rendering of a gate sequence lists the gates in reverse of the order
  given (the last gate first), each gate as its type name followed by the
  parenthesised pair of the renderings of its target bits and of its control bits,
  the gates joined by a comma and a space; a sequence g0, g1, g2 is rendered as
  g2, g1, g0.
\<close>

theorem gatesToStr_reversed:
  "gatesToStr gates = Join (map gateS (rev gates)) '', ''
   \<and> gateS g = TypeName g @ ''('' @ vectorToStr (TargetBits g) @ '', '' @ vectorToStr (ControlBits g) @ '')''
   \<and> gatesToStr [g0, g1, g2] = gateS g2 @ '', '' @ gateS g1 @ '', '' @ gateS g0
   \<and> gatesToStr [cnot01, fredkin012] = ''fredkin([0, 1], [2]), cnot([0], [1])''"
proof -
  have "gatesToStr [cnot01, fredkin012] = ''fredkin([0, 1], [2]), cnot([0], [1])''"
    by (simp add: gatesToStr_eq gateS_def cnot01_def fredkin012_def vectorToStr_def
        Itoa_def formatDec.simps digit_def)
  then show ?thesis by (simp add: gatesToStr_eq gateS_def)
qed

text \<open>
  C10. The rendering of the empty gate sequence is the empty string, not the two
  brackets that the rendering of the empty vector gives.
\<close>

theorem gatesToStr_empty:
  "gatesToStr [] = [] \<and> gatesToStr [] \<noteq> ''[]'' \<and> vectorToStr [] = ''[]''"
  by (simp add: gatesToStr_eq vectorToStr_eq)

section \<open>The cost evaluator\<close>

lemma sint_of_nat_small: "n < 2 ^ 63 \<Longrightarrow> sint (of_nat n :: go_int) = int n"
proof -
  assume "n < 2 ^ 63"
  then have "int n < 2 ^ 63" by (metis of_nat_less_iff of_nat_numeral of_nat_power)
  then have "signed_take_bit 63 (int n) = int n"
    by (intro signed_take_bit_int_eq_self) simp_all
  moreover have "sint (of_nat n :: go_int) = signed_take_bit 63 (int n)"
    using sint_sbintrunc' [where 'a = 64, of "int n"] by simp
  ultimately show ?thesis by simp
qed

lemma calcQuantumCost_loop_known:
  "\<forall>g \<in> set gates. TypeName g = ''cnot'' \<or> TypeName g = ''fredkin'' \<Longrightarrow>
   calcQuantumCost_loop qc gates =
     Inr (qc + 1 * of_nat (length (filter (\<lambda>g. TypeName g = ''cnot'') gates))
             + 5 * of_nat (length (filter (\<lambda>g. TypeName g = ''fredkin'') gates)))"
  by (induction gates arbitrary: qc) (auto simp: algebra_simps)

lemma calcQuantumCost_loop_unknown:
  "\<exists>g \<in> set gates. TypeName g \<noteq> ''cnot'' \<and> TypeName g \<noteq> ''fredkin'' \<Longrightarrow>
   calcQuantumCost_loop qc gates =
     Inl (UnknownGateType (TypeName (hd (filter (\<lambda>g. TypeName g \<noteq> ''cnot'' \<and> TypeName g \<noteq> ''fredkin'') gates))))"
  by (induction gates arbitrary: qc) auto

lemma gate_counts_le:
  "length (filter (\<lambda>g. TypeName g = ''cnot'') gates)
     + 5 * length (filter (\<lambda>g. TypeName g = ''fredkin'') gates) \<le> 5 * length gates"
  by (induction gates) auto

text \<open>
  C2. For a gate sequence whose gates are all of type cnot or fredkin, the cost
  evaluator returns 1 times the number of cnot gates plus 5 times the number of
  fredkin gates. The sum is computed in Go's \<^verbatim>\<open>int\<close>; a sequence of fewer than
  \<open>2 ^ 63 div 5\<close> gates (every sequence that fits in memory) cannot make it wrap,
  and the returned integer is then that number itself.
\<close>

theorem calcQuantumCost_recognized:
  assumes "\<forall>g \<in> set gates. TypeName g = ''cnot'' \<or> TypeName g = ''fredkin''"
  shows "calcQuantumCost gates =
           Inr (1 * of_nat (length (filter (\<lambda>g. TypeName g = ''cnot'') gates))
              + 5 * of_nat (length (filter (\<lambda>g. TypeName g = ''fredkin'') gates)))
       \<and> (5 * length gates < 2 ^ 63 \<longrightarrow>
            sint (projr (calcQuantumCost gates)) =
               1 * int (length (filter (\<lambda>g. TypeName g = ''cnot'') gates))
             + 5 * int (length (filter (\<lambda>g. TypeName g = ''fredkin'') gates)))"
proof -
  let ?c = "length (filter (\<lambda>g. TypeName g = ''cnot'') gates)"
  let ?f = "length (filter (\<lambda>g. TypeName g = ''fredkin'') gates)"
  have eq: "calcQuantumCost gates = Inr (1 * of_nat ?c + 5 * of_nat ?f)"
    using calcQuantumCost_loop_known [OF assms, of 0] by (simp add: calcQuantumCost_def)
  have "sint (1 * of_nat ?c + 5 * of_nat ?f :: go_int) = 1 * int ?c + 5 * int ?f"
    if "5 * length gates < 2 ^ 63"
  proof -
    have "?c + 5 * ?f < 2 ^ 63" using gate_counts_le [of gates] that by linarith
    then have "sint (of_nat (?c + 5 * ?f) :: go_int) = int (?c + 5 * ?f)"
      by (rule sint_of_nat_small)
    then show ?thesis by simp
  qed
  with eq show ?thesis by simp
qed

theorem calcQuantumCost_recognized_witness:
  "calcQuantumCost [cnot01, fredkin012, cnot01] = Inr 7
   \<and> sint (projr (calcQuantumCost [cnot01, fredkin012, cnot01])) = 7"
  using calcQuantumCost_recognized [of "[cnot01, fredkin012, cnot01]"]
  by (simp add: cnot01_def fredkin012_def)

text \<open>
  C3. For a gate sequence with at least one gate whose type name is neither cnot
  nor fredkin, the cost evaluator returns no cost: it ends with the fatal error
  that names the type of the first such gate.
\<close>

theorem calcQuantumCost_unknown:
  assumes "\<exists>g \<in> set gates. TypeName g \<noteq> ''cnot'' \<and> TypeName g \<noteq> ''fredkin''"
  shows "calcQuantumCost gates =
     Inl (UnknownGateType (TypeName (hd (filter (\<lambda>g. TypeName g \<noteq> ''cnot'' \<and> TypeName g \<noteq> ''fredkin'') gates))))"
  using calcQuantumCost_loop_unknown [OF assms] by (simp add: calcQuantumCost_def)

theorem calcQuantumCost_unknown_witness:
  "calcQuantumCost [cnot01, toffoli012, fredkin012] = Inl (UnknownGateType ''toffoli'')"
  using calcQuantumCost_unknown [of "[cnot01, toffoli012, fredkin012]"]
  by (simp add: cnot01_def fredkin012_def toffoli012_def)


section \<open>One configuration: the body of the inner loop\<close>

text \<open>
  The body has five ways through it. Each lemma gives the status and the state it
  ends with, in terms of what the two collaborators return.
\<close>

lemma body_skip_complexity:
  assumes "Synthesise env (main_conf c) main_factories (main_truthVector inp) (world s) = (res, w1)"
      and "sint (Complexity res) > 0"
  shows "main_config_body env inp c s =
     (Running, \<lparr>world = w1, trace = trace s @ [LogRunningNextConfig,
        CallSynthesise (main_conf c) main_factories (main_truthVector inp) res,
        LogSkippingComplexity (Complexity res)]\<rparr>)"
  using assms by (simp add: main_config_body_def emit_def Let_def)

lemma body_fatal_gate:
  assumes "Synthesise env (main_conf c) main_factories (main_truthVector inp) (world s) = (res, w1)"
      and "\<not> sint (Complexity res) > 0"
      and "calcQuantumCost (Gates res) = Inl (UnknownGateType name)"
  shows "main_config_body env inp c s =
     (Exited, \<lparr>world = w1, trace = trace s @ [LogRunningNextConfig,
        CallSynthesise (main_conf c) main_factories (main_truthVector inp) res,
        FatalUnknownGateType name]\<rparr>)"
  using assms by (simp add: main_config_body_def emit_def Let_def)

lemma body_skip_cost:
  assumes "Synthesise env (main_conf c) main_factories (main_truthVector inp) (world s) = (res, w1)"
      and "\<not> sint (Complexity res) > 0"
      and "calcQuantumCost (Gates res) = Inr qc"
      and "sint qc > sint (TargetQuantumCost inp)"
  shows "main_config_body env inp c s =
     (Running, \<lparr>world = w1, trace = trace s @ [LogRunningNextConfig,
        CallSynthesise (main_conf c) main_factories (main_truthVector inp) res,
        LogSkippingQuantumCost qc]\<rparr>)"
  using assms by (simp add: main_config_body_def emit_def Let_def)

lemma body_saved:
  assumes "Synthesise env (main_conf c) main_factories (main_truthVector inp) (world s) = (res, w1)"
      and "\<not> sint (Complexity res) > 0"
      and "calcQuantumCost (Gates res) = Inr qc"
      and "\<not> sint qc > sint (TargetQuantumCost inp)"
      and "SaveSolution env \<lparr>QuantumCost = qc, Solution_TargetVector = TargetVector inp,
             Solution_Gates = Gates res\<rparr> w1 = (None, w2)"
  shows "main_config_body env inp c s =
     (Running, \<lparr>world = w2, trace = trace s @ [LogRunningNextConfig,
        CallSynthesise (main_conf c) main_factories (main_truthVector inp) res,
        CallSaveSolution \<lparr>QuantumCost = qc, Solution_TargetVector = TargetVector inp,
             Solution_Gates = Gates res\<rparr> None]\<rparr>)"
  using assms by (simp add: main_config_body_def emit_def Let_def)

lemma body_save_failed:
  assumes "Synthesise env (main_conf c) main_factories (main_truthVector inp) (world s) = (res, w1)"
      and "\<not> sint (Complexity res) > 0"
      and "calcQuantumCost (Gates res) = Inr qc"
      and "\<not> sint qc > sint (TargetQuantumCost inp)"
      and "SaveSolution env \<lparr>QuantumCost = qc, Solution_TargetVector = TargetVector inp,
             Solution_Gates = Gates res\<rparr> w1 = (Some e, w2)"
  shows "main_config_body env inp c s =
     (Exited, \<lparr>world = w2, trace = trace s @ [LogRunningNextConfig,
        CallSynthesise (main_conf c) main_factories (main_truthVector inp) res,
        CallSaveSolution \<lparr>QuantumCost = qc, Solution_TargetVector = TargetVector inp,
             Solution_Gates = Gates res\<rparr> (Some e),
        FatalFailedToSave e]\<rparr>)"
  using assms by (simp add: main_config_body_def emit_def Let_def)


lemma main_config_body_cases [case_names skip_complexity fatal_gate skip_cost saved save_failed]:
  fixes env :: "('f, 'w) env"
  obtains
    res w1 where
      "Synthesise env (main_conf c) main_factories (main_truthVector inp) (world s) = (res, w1)"
      "sint (Complexity res) > 0"
      "main_config_body env inp c s =
         (Running, \<lparr>world = w1, trace = trace s @ [LogRunningNextConfig,
            CallSynthesise (main_conf c) main_factories (main_truthVector inp) res,
            LogSkippingComplexity (Complexity res)]\<rparr>)"
  | res w1 name where
      "Synthesise env (main_conf c) main_factories (main_truthVector inp) (world s) = (res, w1)"
      "\<not> sint (Complexity res) > 0"
      "calcQuantumCost (Gates res) = Inl (UnknownGateType name)"
      "main_config_body env inp c s =
         (Exited, \<lparr>world = w1, trace = trace s @ [LogRunningNextConfig,
            CallSynthesise (main_conf c) main_factories (main_truthVector inp) res,
            FatalUnknownGateType name]\<rparr>)"
  | res w1 qc where
      "Synthesise env (main_conf c) main_factories (main_truthVector inp) (world s) = (res, w1)"
      "\<not> sint (Complexity res) > 0"
      "calcQuantumCost (Gates res) = Inr qc"
      "sint qc > sint (TargetQuantumCost inp)"
      "main_config_body env inp c s =
         (Running, \<lparr>world = w1, trace = trace s @ [LogRunningNextConfig,
            CallSynthesise (main_conf c) main_factories (main_truthVector inp) res,
            LogSkippingQuantumCost qc]\<rparr>)"
  | res w1 qc w2 where
      "Synthesise env (main_conf c) main_factories (main_truthVector inp) (world s) = (res, w1)"
      "\<not> sint (Complexity res) > 0"
      "calcQuantumCost (Gates res) = Inr qc"
      "\<not> sint qc > sint (TargetQuantumCost inp)"
      "SaveSolution env \<lparr>QuantumCost = qc, Solution_TargetVector = TargetVector inp,
             Solution_Gates = Gates res\<rparr> w1 = (None, w2)"
      "main_config_body env inp c s =
         (Running, \<lparr>world = w2, trace = trace s @ [LogRunningNextConfig,
            CallSynthesise (main_conf c) main_factories (main_truthVector inp) res,
            CallSaveSolution \<lparr>QuantumCost = qc, Solution_TargetVector = TargetVector inp,
               Solution_Gates = Gates res\<rparr> None]\<rparr>)"
  | res w1 qc w2 e where
      "Synthesise env (main_conf c) main_factories (main_truthVector inp) (world s) = (res, w1)"
      "\<not> sint (Complexity res) > 0"
      "calcQuantumCost (Gates res) = Inr qc"
      "\<not> sint qc > sint (TargetQuantumCost inp)"
      "SaveSolution env \<lparr>QuantumCost = qc, Solution_TargetVector = TargetVector inp,
             Solution_Gates = Gates res\<rparr> w1 = (Some e, w2)"
      "main_config_body env inp c s =
         (Exited, \<lparr>world = w2, trace = trace s @ [LogRunningNextConfig,
            CallSynthesise (main_conf c) main_factories (main_truthVector inp) res,
            CallSaveSolution \<lparr>QuantumCost = qc, Solution_TargetVector = TargetVector inp,
               Solution_Gates = Gates res\<rparr> (Some e),
            FatalFailedToSave e]\<rparr>)"
proof -
  obtain res w1 where syn:
    "Synthesise env (main_conf c) main_factories (main_truthVector inp) (world s) = (res, w1)"
    by (cases "Synthesise env (main_conf c) main_factories (main_truthVector inp) (world s)")
  show thesis
  proof (cases "sint (Complexity res) > 0")
    case True
    then show thesis using syn body_skip_complexity [OF syn] that(1) by blast
  next
    case low: False
    show thesis
    proof (cases "calcQuantumCost (Gates res)")
      case (Inl err)
      then obtain name where "calcQuantumCost (Gates res) = Inl (UnknownGateType name)"
        by (cases err) simp
      then show thesis using syn low body_fatal_gate [OF syn low] that(2) by blast
    next
      case (Inr qc)
      show thesis
      proof (cases "sint qc > sint (TargetQuantumCost inp)")
        case True
        then show thesis using syn low Inr body_skip_cost [OF syn low Inr] that(3) by blast
      next
        case cheap: False
        obtain err w2 where sv:
          "SaveSolution env \<lparr>QuantumCost = qc, Solution_TargetVector = TargetVector inp,
             Solution_Gates = Gates res\<rparr> w1 = (err, w2)"
          by (cases "SaveSolution env \<lparr>QuantumCost = qc, Solution_TargetVector = TargetVector inp,
             Solution_Gates = Gates res\<rparr> w1")
        show thesis
        proof (cases err)
          case None
          then show thesis
            using syn low Inr cheap sv body_saved [OF syn low Inr cheap] that(4) by blast
        next
          case (Some e)
          then show thesis
            using syn low Inr cheap sv body_save_failed [OF syn low Inr cheap] that(5) by blast
        qed
      qed
    qed
  qed
qed

lemma body_new_events_cases [case_names skip_complexity fatal_gate skip_cost saved save_failed]:
  fixes env :: "('f, 'w) env"
  obtains
    "sint (Complexity (synthesised env inp c s)) > 0"
    "fst (main_config_body env inp c s) = Running"
    "new_events s (main_config_body env inp c s) =
       [LogRunningNextConfig,
        CallSynthesise (main_conf c) main_factories (main_truthVector inp) (synthesised env inp c s),
        LogSkippingComplexity (Complexity (synthesised env inp c s))]"
  | name where
    "\<not> sint (Complexity (synthesised env inp c s)) > 0"
    "calcQuantumCost (Gates (synthesised env inp c s)) = Inl (UnknownGateType name)"
    "fst (main_config_body env inp c s) = Exited"
    "new_events s (main_config_body env inp c s) =
       [LogRunningNextConfig,
        CallSynthesise (main_conf c) main_factories (main_truthVector inp) (synthesised env inp c s),
        FatalUnknownGateType name]"
  | qc where
    "\<not> sint (Complexity (synthesised env inp c s)) > 0"
    "calcQuantumCost (Gates (synthesised env inp c s)) = Inr qc"
    "sint qc > sint (TargetQuantumCost inp)"
    "fst (main_config_body env inp c s) = Running"
    "new_events s (main_config_body env inp c s) =
       [LogRunningNextConfig,
        CallSynthesise (main_conf c) main_factories (main_truthVector inp) (synthesised env inp c s),
        LogSkippingQuantumCost qc]"
  | qc where
    "\<not> sint (Complexity (synthesised env inp c s)) > 0"
    "calcQuantumCost (Gates (synthesised env inp c s)) = Inr qc"
    "\<not> sint qc > sint (TargetQuantumCost inp)"
    "fst (main_config_body env inp c s) = Running"
    "new_events s (main_config_body env inp c s) =
       [LogRunningNextConfig,
        CallSynthesise (main_conf c) main_factories (main_truthVector inp) (synthesised env inp c s),
        CallSaveSolution \<lparr>QuantumCost = qc, Solution_TargetVector = TargetVector inp,
           Solution_Gates = Gates (synthesised env inp c s)\<rparr> None]"
  | qc e where
    "\<not> sint (Complexity (synthesised env inp c s)) > 0"
    "calcQuantumCost (Gates (synthesised env inp c s)) = Inr qc"
    "\<not> sint qc > sint (TargetQuantumCost inp)"
    "fst (main_config_body env inp c s) = Exited"
    "new_events s (main_config_body env inp c s) =
       [LogRunningNextConfig,
        CallSynthesise (main_conf c) main_factories (main_truthVector inp) (synthesised env inp c s),
        CallSaveSolution \<lparr>QuantumCost = qc, Solution_TargetVector = TargetVector inp,
           Solution_Gates = Gates (synthesised env inp c s)\<rparr> (Some e),
        FatalFailedToSave e]"
proof (rule main_config_body_cases [where env = env and inp = inp and c = c and s = s])
  fix res w1
  assume "Synthesise env (main_conf c) main_factories (main_truthVector inp) (world s) = (res, w1)"
    "sint (Complexity res) > 0"
    "main_config_body env inp c s =
         (Running, \<lparr>world = w1, trace = trace s @ [LogRunningNextConfig,
            CallSynthesise (main_conf c) main_factories (main_truthVector inp) res,
            LogSkippingComplexity (Complexity res)]\<rparr>)"
  then show thesis by (intro that(1)) (simp_all add: synthesised_def new_events_def)
next
  fix res w1 name
  assume "Synthesise env (main_conf c) main_factories (main_truthVector inp) (world s) = (res, w1)"
      "\<not> sint (Complexity res) > 0"
      "calcQuantumCost (Gates res) = Inl (UnknownGateType name)"
      "main_config_body env inp c s =
         (Exited, \<lparr>world = w1, trace = trace s @ [LogRunningNextConfig,
            CallSynthesise (main_conf c) main_factories (main_truthVector inp) res,
            FatalUnknownGateType name]\<rparr>)"
  then show thesis by (intro that(2) [of name]) (simp_all add: synthesised_def new_events_def)
next
  fix res w1 qc
  assume "Synthesise env (main_conf c) main_factories (main_truthVector inp) (world s) = (res, w1)"
      "\<not> sint (Complexity res) > 0"
      "calcQuantumCost (Gates res) = Inr qc"
      "sint qc > sint (TargetQuantumCost inp)"
      "main_config_body env inp c s =
         (Running, \<lparr>world = w1, trace = trace s @ [LogRunningNextConfig,
            CallSynthesise (main_conf c) main_factories (main_truthVector inp) res,
            LogSkippingQuantumCost qc]\<rparr>)"
  then show thesis by (intro that(3) [of qc]) (simp_all add: synthesised_def new_events_def)
next
  fix res w1 qc w2
  assume "Synthesise env (main_conf c) main_factories (main_truthVector inp) (world s) = (res, w1)"
      "\<not> sint (Complexity res) > 0"
      "calcQuantumCost (Gates res) = Inr qc"
      "\<not> sint qc > sint (TargetQuantumCost inp)"
      "SaveSolution env \<lparr>QuantumCost = qc, Solution_TargetVector = TargetVector inp,
             Solution_Gates = Gates res\<rparr> w1 = (None, w2)"
      "main_config_body env inp c s =
         (Running, \<lparr>world = w2, trace = trace s @ [LogRunningNextConfig,
            CallSynthesise (main_conf c) main_factories (main_truthVector inp) res,
            CallSaveSolution \<lparr>QuantumCost = qc, Solution_TargetVector = TargetVector inp,
               Solution_Gates = Gates res\<rparr> None]\<rparr>)"
  then show thesis by (intro that(4) [of qc]) (simp_all add: synthesised_def new_events_def)
next
  fix res w1 qc w2 e
  assume "Synthesise env (main_conf c) main_factories (main_truthVector inp) (world s) = (res, w1)"
      "\<not> sint (Complexity res) > 0"
      "calcQuantumCost (Gates res) = Inr qc"
      "\<not> sint qc > sint (TargetQuantumCost inp)"
      "SaveSolution env \<lparr>QuantumCost = qc, Solution_TargetVector = TargetVector inp,
             Solution_Gates = Gates res\<rparr> w1 = (Some e, w2)"
      "main_config_body env inp c s =
         (Exited, \<lparr>world = w2, trace = trace s @ [LogRunningNextConfig,
            CallSynthesise (main_conf c) main_factories (main_truthVector inp) res,
            CallSaveSolution \<lparr>QuantumCost = qc, Solution_TargetVector = TargetVector inp,
               Solution_Gates = Gates res\<rparr> (Some e),
            FatalFailedToSave e]\<rparr>)"
  then show thesis by (intro that(5) [of qc e]) (simp_all add: synthesised_def new_events_def)
qed

section \<open>Runs: what holds of the body holds of the loops\<close>

text \<open>
  Every loop only appends to the trace. A property \<open>P\<close> of the status and the
  new events that holds of every execution of the body, of the empty list, and is
  kept by putting a finished part before another, holds of the inner loop, of a
  round, and of any number of rounds.
\<close>

lemma body_extends:
  "\<exists>evs. trace (snd (main_config_body env inp c s)) = trace s @ evs"
  by (rule main_config_body_cases [where env = env and inp = inp and c = c and s = s]) simp_all

lemma configs_extends:
  "\<exists>evs. trace (snd (main_configs env inp cs s)) = trace s @ evs"
proof (induction cs arbitrary: s)
  case Nil
  show ?case by simp
next
  case (Cons c cs)
  obtain st s1 where b: "main_config_body env inp c s = (st, s1)"
    by (cases "main_config_body env inp c s")
  obtain evs1 where e1: "trace s1 = trace s @ evs1"
    using body_extends [of env inp c s] b by auto
  show ?case
  proof (cases st)
    case Running
    obtain evs2 where "trace (snd (main_configs env inp cs s1)) = trace s1 @ evs2"
      using Cons.IH [of s1] by auto
    then show ?thesis using b Running e1 by simp
  next
    case Exited
    then show ?thesis using b e1 by simp
  qed
qed

lemma iteration_extends:
  "\<exists>evs. trace (snd (main_iteration env inp s)) = trace s @ evs"
  using configs_extends [of env inp "AcoConfigs inp" "emit LogRunningNextIteration s"]
  by (auto simp: main_iteration_def emit_def)

lemma rounds_extends:
  "\<exists>evs. trace (snd (main_rounds env inp n s)) = trace s @ evs"
proof (induction n arbitrary: s)
  case 0
  show ?case by simp
next
  case (Suc n)
  obtain st s1 where b: "main_iteration env inp s = (st, s1)"
    by (cases "main_iteration env inp s")
  obtain evs1 where e1: "trace s1 = trace s @ evs1"
    using iteration_extends [of env inp s] b by auto
  show ?case
  proof (cases st)
    case Running
    obtain evs2 where "trace (snd (main_rounds env inp n s1)) = trace s1 @ evs2"
      using Suc.IH [of s1] by auto
    then show ?thesis using b Running e1 by simp
  next
    case Exited
    then show ?thesis using b e1 by simp
  qed
qed

lemma new_events_trans:
  assumes "\<exists>evs. trace s1 = trace s @ evs" and "\<exists>evs. trace (snd r) = trace s1 @ evs"
  shows "new_events s r = new_events s (st, s1) @ new_events s1 r"
  using assms by (auto simp: new_events_def)

lemma new_events_self: "new_events s (st, s) = []"
  by (simp add: new_events_def)

lemma new_events_emit:
  assumes "\<exists>evs. trace (snd r) = trace (emit ev s) @ evs"
  shows "new_events s r = ev # new_events (emit ev s) r"
  using assms by (auto simp: new_events_def emit_def)

lemma main_configs_invariant:
  assumes body: "\<And>c s. c \<in> set cs \<Longrightarrow>
            P (fst (main_config_body env inp c s)) (new_events s (main_config_body env inp c s))"
      and nil: "P Running []"
      and app: "\<And>xs ys st. P Running xs \<Longrightarrow> P st ys \<Longrightarrow> P st (xs @ ys)"
  shows "P (fst (main_configs env inp cs s)) (new_events s (main_configs env inp cs s))"
  using body
proof (induction cs arbitrary: s)
  case Nil
  show ?case using nil by (simp add: new_events_self)
next
  case (Cons c cs)
  obtain st s1 where b: "main_config_body env inp c s = (st, s1)"
    by (cases "main_config_body env inp c s")
  have p1: "P st (new_events s (st, s1))"
    using Cons.prems [of c s] b by simp
  show ?case
  proof (cases st)
    case Exited
    then show ?thesis using b p1 by simp
  next
    case Running
    have ext1: "\<exists>evs. trace s1 = trace s @ evs"
      using body_extends [of env inp c s] b by simp
    have ext2: "\<exists>evs. trace (snd (main_configs env inp cs s1)) = trace s1 @ evs"
      by (rule configs_extends)
    have p2: "P (fst (main_configs env inp cs s1)) (new_events s1 (main_configs env inp cs s1))"
      using Cons.IH [of s1] Cons.prems by simp
    have "new_events s (main_configs env inp cs s1)
            = new_events s (Running, s1) @ new_events s1 (main_configs env inp cs s1)"
      by (rule new_events_trans [OF ext1 ext2])
    then show ?thesis using b Running p1 p2 app by simp
  qed
qed

lemma main_iteration_invariant:
  assumes body: "\<And>c s. c \<in> set (AcoConfigs inp) \<Longrightarrow>
            P (fst (main_config_body env inp c s)) (new_events s (main_config_body env inp c s))"
      and nil: "P Running []"
      and app: "\<And>xs ys st. P Running xs \<Longrightarrow> P st ys \<Longrightarrow> P st (xs @ ys)"
      and log: "P Running [LogRunningNextIteration]"
  shows "P (fst (main_iteration env inp s)) (new_events s (main_iteration env inp s))"
proof -
  let ?s1 = "emit LogRunningNextIteration s"
  let ?r = "main_configs env inp (AcoConfigs inp) ?s1"
  have "P (fst ?r) (new_events ?s1 ?r)"
    by (rule main_configs_invariant [where P = P, OF body nil app])
  moreover have "new_events s ?r = [LogRunningNextIteration] @ new_events ?s1 ?r"
    using new_events_emit [OF configs_extends] by simp
  ultimately show ?thesis using app [OF log] by (simp add: main_iteration_def)
qed

lemma main_rounds_invariant:
  assumes body: "\<And>c s. c \<in> set (AcoConfigs inp) \<Longrightarrow>
            P (fst (main_config_body env inp c s)) (new_events s (main_config_body env inp c s))"
      and nil: "P Running []"
      and app: "\<And>xs ys st. P Running xs \<Longrightarrow> P st ys \<Longrightarrow> P st (xs @ ys)"
      and log: "P Running [LogRunningNextIteration]"
  shows "P (fst (main_rounds env inp n s)) (new_events s (main_rounds env inp n s))"
proof (induction n arbitrary: s)
  case 0
  show ?case using nil by (simp add: new_events_self)
next
  case (Suc n)
  obtain st s1 where b: "main_iteration env inp s = (st, s1)"
    by (cases "main_iteration env inp s")
  have p1: "P st (new_events s (st, s1))"
    using main_iteration_invariant [where P = P, OF body nil app log, of s] b by simp
  show ?case
  proof (cases st)
    case Exited
    then show ?thesis using b p1 by simp
  next
    case Running
    have ext1: "\<exists>evs. trace s1 = trace s @ evs"
      using iteration_extends [of env inp s] b by simp
    have ext2: "\<exists>evs. trace (snd (main_rounds env inp n s1)) = trace s1 @ evs"
      by (rule rounds_extends)
    have "new_events s (main_rounds env inp n s1)
            = new_events s (Running, s1) @ new_events s1 (main_rounds env inp n s1)"
      by (rule new_events_trans [OF ext1 ext2])
    then show ?thesis using b Running p1 Suc.IH [of s1] app by simp
  qed
qed

lemma synth_calls_append: "synth_calls (xs @ ys) = synth_calls xs @ synth_calls ys"
  by (induction xs rule: synth_calls.induct) simp_all

lemma saves_of_append: "saves_of (xs @ ys) = saves_of xs @ saves_of ys"
  by (induction xs rule: saves_of.induct) simp_all

lemma saves_follow_weaken: "saves_follow None evs \<Longrightarrow> saves_follow prev evs"
  by (cases evs rule: saves_of.cases) (simp_all split: option.splits)

lemma saves_follow_append:
  "saves_follow prev xs \<Longrightarrow> saves_follow None ys \<Longrightarrow> saves_follow prev (xs @ ys)"
  by (induction prev xs rule: saves_follow.induct) (simp_all add: saves_follow_weaken)

lemma alternating_append:
  "alternating pending xs \<Longrightarrow> alternating False ys \<Longrightarrow> alternating pending (xs @ ys)"
  by (induction xs arbitrary: pending) (auto split: if_splits)

lemma exit_shape_append:
  "exit_shape Running xs \<Longrightarrow> exit_shape st ys \<Longrightarrow> exit_shape st (xs @ ys)"
proof (cases st)
  case Running
  assume "exit_shape Running xs" "exit_shape st ys"
  then show ?thesis using Running by (simp add: exit_shape_def)
next
  case Exited
  assume xs: "exit_shape Running xs" and ys: "exit_shape st ys"
  from ys Exited obtain pre where pre: "list_all (\<lambda>ev. \<not> is_fatal ev \<and> \<not> failed_save ev) pre"
    and tail: "(\<exists>name. ys = pre @ [FatalUnknownGateType name]) \<or>
               (\<exists>sol e. ys = pre @ [CallSaveSolution sol (Some e), FatalFailedToSave e])"
    by (auto simp: exit_shape_def)
  have "list_all (\<lambda>ev. \<not> is_fatal ev \<and> \<not> failed_save ev) (xs @ pre)"
    using xs pre by (simp add: exit_shape_def)
  moreover have "(\<exists>name. xs @ ys = (xs @ pre) @ [FatalUnknownGateType name]) \<or>
               (\<exists>sol e. xs @ ys = (xs @ pre) @ [CallSaveSolution sol (Some e), FatalFailedToSave e])"
    using tail by auto
  ultimately show ?thesis unfolding exit_shape_def Exited by (simp only: status.case) blast
qed

lemma body_exit_shape:
  "exit_shape (fst (main_config_body env inp c s)) (new_events s (main_config_body env inp c s))"
proof (rule body_new_events_cases [where env = env and inp = inp and c = c and s = s])
  fix name
  assume "fst (main_config_body env inp c s) = Exited"
    and "new_events s (main_config_body env inp c s) =
       [LogRunningNextConfig,
        CallSynthesise (main_conf c) main_factories (main_truthVector inp) (synthesised env inp c s),
        FatalUnknownGateType name]"
  then show ?thesis
    unfolding exit_shape_def
    by (auto intro!: exI [where x = "[LogRunningNextConfig,
        CallSynthesise (main_conf c) main_factories (main_truthVector inp) (synthesised env inp c s)]"])
next
  fix qc e
  assume "fst (main_config_body env inp c s) = Exited"
    and "new_events s (main_config_body env inp c s) =
       [LogRunningNextConfig,
        CallSynthesise (main_conf c) main_factories (main_truthVector inp) (synthesised env inp c s),
        CallSaveSolution \<lparr>QuantumCost = qc, Solution_TargetVector = TargetVector inp,
           Solution_Gates = Gates (synthesised env inp c s)\<rparr> (Some e),
        FatalFailedToSave e]"
  then show ?thesis
    unfolding exit_shape_def
    by (auto intro!: exI [where x = "[LogRunningNextConfig,
        CallSynthesise (main_conf c) main_factories (main_truthVector inp) (synthesised env inp c s)]"])
qed (simp_all add: exit_shape_def)

lemma rounds_exit_shape:
  "exit_shape (fst (main_rounds env inp n s)) (new_events s (main_rounds env inp n s))"
  by (rule main_rounds_invariant [where P = exit_shape, OF body_exit_shape _ exit_shape_append])
     (simp_all add: exit_shape_def)

lemma main_loop_exit:
  "fst (main_rounds env inp n s) = Exited \<Longrightarrow>
   main_loop env inp s = Some (snd (main_rounds env inp n s))"
proof (induction n arbitrary: s)
  case 0
  then show ?case by simp
next
  case (Suc n)
  obtain st s1 where b: "main_iteration env inp s = (st, s1)"
    by (cases "main_iteration env inp s")
  show ?case
  proof (cases st)
    case Exited
    then show ?thesis using b by (subst main_loop.simps) simp
  next
    case Running
    then have "fst (main_rounds env inp n s1) = Exited" using Suc.prems b by simp
    then have "main_loop env inp s1 = Some (snd (main_rounds env inp n s1))" by (rule Suc.IH)
    then show ?thesis using b Running by (subst main_loop.simps) simp
  qed
qed

lemma main_loop_returns:
  assumes "main_loop env inp s = Some s'"
  shows "\<exists>n. main_rounds env inp n s = (Exited, s')"
proof (rule main_loop.raw_induct
    [where P = "\<lambda>env inp s s'. \<exists>n. main_rounds env inp n s = (Exited, s')", OF _ assms])
  fix loop :: "('a, 'b) env \<Rightarrow> 'a Input \<Rightarrow> ('a, 'b) state \<Rightarrow> ('a, 'b) state option"
    and env inp s s'
  assume IH: "\<And>env inp s s'. loop env inp s = Some s' \<Longrightarrow> \<exists>n. main_rounds env inp n s = (Exited, s')"
    and step: "(case main_iteration env inp s of
                  (Running, s1) \<Rightarrow> loop env inp s1
                | (Exited, s1) \<Rightarrow> Some s1) = Some s'"
  obtain st s1 where b: "main_iteration env inp s = (st, s1)"
    by (cases "main_iteration env inp s")
  show "\<exists>n. main_rounds env inp n s = (Exited, s')"
  proof (cases st)
    case Exited
    then have "main_rounds env inp (Suc 0) s = (Exited, s')" using step b by simp
    then show ?thesis by blast
  next
    case Running
    then have "loop env inp s1 = Some s'" using step b by simp
    then obtain n where "main_rounds env inp n s1 = (Exited, s')" using IH by blast
    then have "main_rounds env inp (Suc n) s = (Exited, s')" using b Running by simp
    then show ?thesis by blast
  qed
qed

lemma main_loop_forever:
  assumes "\<forall>n. fst (main_rounds env inp n s) = Running"
  shows "main_loop env inp s = None"
proof (cases "main_loop env inp s")
  case None
  then show ?thesis .
next
  case (Some s')
  then obtain n where "main_rounds env inp n s = (Exited, s')"
    using main_loop_returns by blast
  then show ?thesis using assms by (metis fst_conv status.distinct(1))
qed

lemma main_rounds_exited_stable:
  "fst (main_rounds env inp n s) = Exited \<Longrightarrow>
   main_rounds env inp (n + k) s = main_rounds env inp n s"
proof (induction n arbitrary: s)
  case 0
  then show ?case by simp
next
  case (Suc n)
  obtain st s1 where b: "main_iteration env inp s = (st, s1)"
    by (cases "main_iteration env inp s")
  show ?case
  proof (cases st)
    case Exited
    then show ?thesis using b by simp
  next
    case Running
    then show ?thesis using b Suc by simp
  qed
qed

lemma configs_running_calls:
  "fst (main_configs env inp cs s) = Running \<Longrightarrow>
   synth_calls (new_events s (main_configs env inp cs s)) =
     map (\<lambda>c. (main_conf c, main_factories, main_truthVector inp)) cs"
proof (induction cs arbitrary: s)
  case Nil
  show ?case by (simp add: new_events_self)
next
  case (Cons c cs)
  obtain st s1 where b: "main_config_body env inp c s = (st, s1)"
    by (cases "main_config_body env inp c s")
  have st: "st = Running" using Cons.prems b by (cases st) simp_all
  have run: "fst (main_configs env inp cs s1) = Running" using Cons.prems b st by simp
  have one: "synth_calls (new_events s (Running, s1)) = [(main_conf c, main_factories, main_truthVector inp)]"
    using b st
    by (rule_tac body_new_events_cases [where env = env and inp = inp and c = c and s = s]) simp_all
  have ext1: "\<exists>evs. trace s1 = trace s @ evs"
    using body_extends [of env inp c s] b by simp
  have "new_events s (main_configs env inp cs s1)
          = new_events s (Running, s1) @ new_events s1 (main_configs env inp cs s1)"
    by (rule new_events_trans [OF ext1 configs_extends])
  then show ?case using b st one Cons.IH [OF run] by (simp add: synth_calls_append)
qed

lemma rounds_running_calls:
  "fst (main_rounds env inp n s) = Running \<Longrightarrow>
   synth_calls (new_events s (main_rounds env inp n s)) =
     concat (replicate n (map (\<lambda>c. (main_conf c, main_factories, main_truthVector inp)) (AcoConfigs inp)))"
proof (induction n arbitrary: s)
  case 0
  show ?case by (simp add: new_events_self)
next
  case (Suc n)
  let ?s0 = "emit LogRunningNextIteration s"
  obtain st s1 where b: "main_iteration env inp s = (st, s1)"
    by (cases "main_iteration env inp s")
  have st: "st = Running" using Suc.prems b by (cases st) simp_all
  have run: "fst (main_rounds env inp n s1) = Running" using Suc.prems b st by simp
  have cfg: "main_configs env inp (AcoConfigs inp) ?s0 = (Running, s1)"
    using b st by (simp add: main_iteration_def)
  have "new_events s (Running, s1) = LogRunningNextIteration # new_events ?s0 (Running, s1)"
    using new_events_emit [of "main_configs env inp (AcoConfigs inp) ?s0" LogRunningNextIteration s]
      configs_extends [of env inp "AcoConfigs inp" ?s0] cfg by simp
  then have one: "synth_calls (new_events s (Running, s1)) =
      map (\<lambda>c. (main_conf c, main_factories, main_truthVector inp)) (AcoConfigs inp)"
    using configs_running_calls [of env inp "AcoConfigs inp" ?s0] cfg by simp
  have ext1: "\<exists>evs. trace s1 = trace s @ evs"
    using iteration_extends [of env inp s] b by simp
  have "new_events s (main_rounds env inp n s1)
          = new_events s (Running, s1) @ new_events s1 (main_rounds env inp n s1)"
    by (rule new_events_trans [OF ext1 rounds_extends])
  then show ?case using b st one Suc.IH [OF run] by (simp add: synth_calls_append)
qed

lemma rounds_alternating:
  "alternating False (new_events s (main_rounds env inp n s))"
proof -
  let ?P = "\<lambda>(st::status) evs. alternating False evs"
  have body: "?P (fst (main_config_body env inp c s)) (new_events s (main_config_body env inp c s))"
    for c and s :: "('a, 'b) state"
    by (rule body_new_events_cases [where env = env and inp = inp and c = c and s = s]) simp_all
  show ?thesis
    by (rule main_rounds_invariant [where P = ?P, OF body]) (simp_all add: alternating_append)
qed

lemma exit_shape_fatal:
  "exit_shape Exited evs \<Longrightarrow> \<not> list_all (\<lambda>ev. \<not> is_fatal ev) evs"
  by (auto simp: exit_shape_def)


text \<open>The definitions that evaluating main on the concrete inputs unfolds.\<close>

lemmas concrete_defs =
  const_env_def result_a_def result_b_def result_c_def result_unknown_def result_negative_def
  cnot01_def fredkin012_def toffoli012_def conf_a_def conf_b_def input3_def start_def
  main_config_body_def main_iteration_def main_conf_def main_factories_def main_truthVector_def
  depositStrengthDefault_def emit_def new_events_def synthesised_def calcQuantumCost_def Let_def

section \<open>The acceptance filter\<close>




section \<open>The parameters of the synthesizer\<close>

text \<open>
  C8. In every run of any number of rounds, every call to the synthesizer is made
  with a parameterization that copies the seven tunables of a configuration of the
  input and has deposit strength 100, with the two gate factories cnot and fredkin
  in that order, and with the truth table and target vector of the input; while
  the run has not exited, the calls are those for the configurations of the input,
  in order, once per round. For every configuration and state, the loop body makes
  that call first, and the result it works with is what the synthesizer returns
  for these arguments.
\<close>

theorem synthesiser_parameterization:
  "list_all (\<lambda>(conf, fs, tv).
       (\<exists>c \<in> set (AcoConfigs inp).
          conf = \<lparr>Config_NumOfAnts = NumOfAnts c,
                  Config_NumOfIterations = NumOfIterations c,
                  Config_Alpha = Alpha c,
                  Config_Beta = Beta c,
                  Config_EvaporationRate = EvaporationRate c,
                  Config_DepositStrength = 100,
                  Config_LocalLoops = LocalLoops c,
                  Config_SearchDepth = SearchDepth c\<rparr>)
       \<and> fs = [NewCnotGateFactory, NewFredkinGateFactory]
       \<and> tv = \<lparr>Inputs = InputTT inp, Vector = TargetVector inp\<rparr>)
     (synth_calls (new_events s (main_rounds env inp n s)))
   \<and> (fst (main_rounds env inp n s) = Running \<longrightarrow>
        synth_calls (new_events s (main_rounds env inp n s)) =
          concat (replicate n (map (\<lambda>c.
            (\<lparr>Config_NumOfAnts = NumOfAnts c,
              Config_NumOfIterations = NumOfIterations c,
              Config_Alpha = Alpha c,
              Config_Beta = Beta c,
              Config_EvaporationRate = EvaporationRate c,
              Config_DepositStrength = 100,
              Config_LocalLoops = LocalLoops c,
              Config_SearchDepth = SearchDepth c\<rparr>,
             [NewCnotGateFactory, NewFredkinGateFactory],
             \<lparr>Inputs = InputTT inp, Vector = TargetVector inp\<rparr>)) (AcoConfigs inp))))
   \<and> take 2 (new_events s (main_config_body env inp c s)) =
       [LogRunningNextConfig,
        CallSynthesise
          \<lparr>Config_NumOfAnts = NumOfAnts c,
           Config_NumOfIterations = NumOfIterations c,
           Config_Alpha = Alpha c,
           Config_Beta = Beta c,
           Config_EvaporationRate = EvaporationRate c,
           Config_DepositStrength = 100,
           Config_LocalLoops = LocalLoops c,
           Config_SearchDepth = SearchDepth c\<rparr>
          [NewCnotGateFactory, NewFredkinGateFactory]
          \<lparr>Inputs = InputTT inp, Vector = TargetVector inp\<rparr>
          (fst (Synthesise env
             \<lparr>Config_NumOfAnts = NumOfAnts c,
              Config_NumOfIterations = NumOfIterations c,
              Config_Alpha = Alpha c,
              Config_Beta = Beta c,
              Config_EvaporationRate = EvaporationRate c,
              Config_DepositStrength = 100,
              Config_LocalLoops = LocalLoops c,
              Config_SearchDepth = SearchDepth c\<rparr>
             [NewCnotGateFactory, NewFredkinGateFactory]
             \<lparr>Inputs = InputTT inp, Vector = TargetVector inp\<rparr>
             (world s)))]"
  (is "list_all ?Q ?calls \<and> ?order \<and> ?first")
proof -
  let ?P = "\<lambda>(st::status) evs. list_all ?Q (synth_calls evs)"
  have body: "?P (fst (main_config_body env inp c s)) (new_events s (main_config_body env inp c s))"
    if "c \<in> set (AcoConfigs inp)" for c and s :: "('a, 'b) state"
    using that
    by (rule_tac body_new_events_cases [where env = env and inp = inp and c = c and s = s])
       (auto simp: main_conf_def main_factories_def main_truthVector_def depositStrengthDefault_def)
  have "?P (fst (main_rounds env inp n s)) (new_events s (main_rounds env inp n s))"
    by (rule main_rounds_invariant [where P = ?P, OF body]) (simp_all add: synth_calls_append)
  then have all: "list_all ?Q ?calls" by simp
  have order: ?order
    using rounds_running_calls [of env inp n s]
    by (simp add: main_conf_def main_factories_def main_truthVector_def depositStrengthDefault_def)
  have first: ?first
    by (rule body_new_events_cases [where env = env and inp = inp and c = c and s = s])
       (simp_all add: synthesised_def main_conf_def main_factories_def main_truthVector_def
          depositStrengthDefault_def)
  from order first have "?order \<and> ?first" by (rule conjI)
  with all show ?thesis by (rule conjI)
qed

theorem synthesiser_parameterization_witness:
  "synth_calls (new_events start (main_rounds (const_env result_b None) input3 1 start)) =
     [(\<lparr>Config_NumOfAnts = 10, Config_NumOfIterations = 20, Config_Alpha = 1, Config_Beta = 2,
        Config_EvaporationRate = 1 / 2, Config_DepositStrength = 100, Config_LocalLoops = 3,
        Config_SearchDepth = 4\<rparr>,
       [NewCnotGateFactory, NewFredkinGateFactory],
       \<lparr>Inputs = rows2, Vector = [0, 1, 3, 2]\<rparr>),
      (\<lparr>Config_NumOfAnts = 5, Config_NumOfIterations = 7, Config_Alpha = 3, Config_Beta = 1,
        Config_EvaporationRate = 1 / 4, Config_DepositStrength = 100, Config_LocalLoops = 1,
        Config_SearchDepth = 9\<rparr>,
       [NewCnotGateFactory, NewFredkinGateFactory],
       \<lparr>Inputs = rows2, Vector = [0, 1, 3, 2]\<rparr>)]"
  using synthesiser_parameterization [of input3 start "const_env result_b None" 1 conf_a]
  by (simp add: concrete_defs)

section \<open>The solutions handed to the repository\<close>

text \<open>
  C9. In every run of any number of rounds, every solution handed to the repository
  has as its cost the cost that the evaluator gives for its gates, a cost that is
  at most the target cost of the input, and the target vector of the input; and it
  is handed over directly after the call to the synthesizer that returned its
  gates, with a complexity that passed the filter.
\<close>

theorem saved_solutions:
  "list_all (\<lambda>sol. calcQuantumCost (Solution_Gates sol) = Inr (QuantumCost sol)
                  \<and> sint (QuantumCost sol) \<le> sint (TargetQuantumCost inp)
                  \<and> Solution_TargetVector sol = TargetVector inp)
     (saves_of (new_events s (main_rounds env inp n s)))
   \<and> saves_follow None (new_events s (main_rounds env inp n s))"
proof -
  let ?Q = "\<lambda>sol. calcQuantumCost (Solution_Gates sol) = Inr (QuantumCost sol)
                  \<and> sint (QuantumCost sol) \<le> sint (TargetQuantumCost inp)
                  \<and> Solution_TargetVector sol = TargetVector inp"
  let ?P = "\<lambda>(st::status) evs. list_all ?Q (saves_of evs) \<and> saves_follow None evs"
  have body: "?P (fst (main_config_body env inp c s)) (new_events s (main_config_body env inp c s))"
    for c and s :: "('a, 'b) state"
    by (rule body_new_events_cases [where env = env and inp = inp and c = c and s = s]) simp_all
  have "?P (fst (main_rounds env inp n s)) (new_events s (main_rounds env inp n s))"
    by (rule main_rounds_invariant [where P = ?P, OF body])
       (simp_all add: saves_of_append saves_follow_append)
  then show ?thesis by simp
qed

theorem saved_solutions_witness:
  "saves_of (new_events start (main_rounds (const_env result_a None) input3 1 start)) =
     [\<lparr>QuantumCost = 1, Solution_TargetVector = [0, 1, 3, 2], Solution_Gates = [cnot01]\<rparr>,
      \<lparr>QuantumCost = 1, Solution_TargetVector = [0, 1, 3, 2], Solution_Gates = [cnot01]\<rparr>]
   \<and> calcQuantumCost [cnot01] = Inr 1
   \<and> sint (1 :: go_int) \<le> sint (TargetQuantumCost input3)"
  using saved_solutions [of input3 start "const_env result_a None" 1]
  by (simp add: concrete_defs)

section \<open>A failed save ends the campaign\<close>

text \<open>
  C6. If in a run of \<open>n\<close> rounds the repository answers a save with an error,
  then the run has exited, the only event after that call is the fatal log line
  with the error, and no save failed before it: the solution is not handed over
  again, no further configuration is run and no further round is started. The
  outer loop returns with the state reached there, and more rounds change nothing.
  The state of main has no place where an unsaved solution could be kept.
\<close>

theorem persistence_failure_exits:
  assumes "CallSaveSolution sol (Some e) \<in> set (new_events s (main_rounds env inp n s))"
  shows "fst (main_rounds env inp n s) = Exited
       \<and> main_loop env inp s = Some (snd (main_rounds env inp n s))
       \<and> main_rounds env inp (n + k) s = main_rounds env inp n s
       \<and> (\<exists>pre. new_events s (main_rounds env inp n s) =
                   pre @ [CallSaveSolution sol (Some e), FatalFailedToSave e]
                \<and> list_all (\<lambda>ev. \<not> is_fatal ev \<and> \<not> failed_save ev) pre)"
proof -
  let ?evs = "new_events s (main_rounds env inp n s)"
  have shape: "exit_shape (fst (main_rounds env inp n s)) ?evs" by (rule rounds_exit_shape)
  have bad: "\<not> list_all (\<lambda>ev. \<not> is_fatal ev \<and> \<not> failed_save ev) ?evs"
  proof -
    have "failed_save (CallSaveSolution sol (Some e) :: 'a event)" by simp
    then show ?thesis using assms unfolding list_all_iff by blast
  qed
  have ex: "fst (main_rounds env inp n s) = Exited"
  proof (cases "fst (main_rounds env inp n s)")
    case Running
    then show ?thesis using shape bad by (simp add: exit_shape_def)
  next
    case Exited
    then show ?thesis .
  qed
  from shape ex obtain pre where pre: "list_all (\<lambda>ev. \<not> is_fatal ev \<and> \<not> failed_save ev) pre"
    and tail: "(\<exists>name. ?evs = pre @ [FatalUnknownGateType name]) \<or>
               (\<exists>sol' e'. ?evs = pre @ [CallSaveSolution sol' (Some e'), FatalFailedToSave e'])"
    by (auto simp: exit_shape_def)
  have notpre: "CallSaveSolution sol (Some e) \<notin> set pre"
  proof
    assume "CallSaveSolution sol (Some e) \<in> set pre"
    then have "\<not> failed_save (CallSaveSolution sol (Some e) :: 'a event)"
      using pre unfolding list_all_iff by blast
    then show False by simp
  qed
  have "?evs = pre @ [CallSaveSolution sol (Some e), FatalFailedToSave e]"
    using tail assms notpre by auto
  then show ?thesis
    using ex pre main_loop_exit [OF ex] main_rounds_exited_stable [OF ex] by blast
qed

theorem persistence_failure_exits_witness:
  "main_loop (const_env result_a (Some ''timeout'')) input3 start =
     Some \<lparr>world = 2, trace =
       [LogRunningNextIteration, LogRunningNextConfig,
        CallSynthesise (main_conf conf_a) main_factories (main_truthVector input3) result_a,
        CallSaveSolution \<lparr>QuantumCost = 1, Solution_TargetVector = [0, 1, 3, 2],
          Solution_Gates = [cnot01]\<rparr> (Some ''timeout''),
        FatalFailedToSave ''timeout'']\<rparr>
   \<and> main_rounds (const_env result_a (Some ''timeout'')) input3 5 start =
       main_rounds (const_env result_a (Some ''timeout'')) input3 1 start"
  using persistence_failure_exits [of "\<lparr>QuantumCost = 1, Solution_TargetVector = [0, 1, 3, 2],
          Solution_Gates = [cnot01]\<rparr>" "''timeout''" start "const_env result_a (Some ''timeout'')" input3 1 4]
  by (simp add: concrete_defs)

section \<open>The campaign does not end by itself\<close>

text \<open>
  No fatal error is ever logged when the synthesizer returns only cnot and fredkin
  gates and the repository never answers with an error.
\<close>

lemma safe_env_never_fatal:
  assumes gates: "\<forall>conf fs tv w. \<forall>g \<in> set (Gates (fst (Synthesise env conf fs tv w))).
                     TypeName g = ''cnot'' \<or> TypeName g = ''fredkin''"
      and saves: "\<forall>sol w. fst (SaveSolution env sol w) = None"
  shows "list_all (\<lambda>ev. \<not> is_fatal ev) (new_events s (main_rounds env inp n s))"
proof -
  let ?P = "\<lambda>(st::status) evs. list_all (\<lambda>ev. \<not> is_fatal ev) evs"
  have body: "?P (fst (main_config_body env inp c s)) (new_events s (main_config_body env inp c s))"
    for c and s :: "('a, 'b) state"
  proof (rule main_config_body_cases [where env = env and inp = inp and c = c and s = s])
    fix res :: SynthesisResult and w1 name
    assume syn: "Synthesise env (main_conf c) main_factories (main_truthVector inp) (world s) = (res, w1)"
      and unk: "calcQuantumCost (Gates res) = Inl (UnknownGateType name)"
    have "\<forall>g \<in> set (Gates res). TypeName g = ''cnot'' \<or> TypeName g = ''fredkin''"
      using gates syn by (metis fst_conv)
    then have "\<exists>qc. calcQuantumCost (Gates res) = Inr qc"
      by (simp add: calcQuantumCost_def calcQuantumCost_loop_known)
    then show ?thesis using unk by simp
  next
    fix res :: SynthesisResult and w1 qc w2 e
    assume "SaveSolution env \<lparr>QuantumCost = qc, Solution_TargetVector = TargetVector inp,
             Solution_Gates = Gates res\<rparr> w1 = (Some e, w2)"
    then show ?thesis using saves by (metis fst_conv option.distinct(1))
  qed (simp_all add: new_events_def)
  show ?thesis
    by (rule main_rounds_invariant [where P = ?P, OF body]) simp_all
qed

lemma const_env_never_fatal:
  "\<forall>n. list_all (\<lambda>ev. \<not> is_fatal ev) (new_events start (main_rounds (const_env result_a None) input3 n start))"
proof
  fix n
  show "list_all (\<lambda>ev. \<not> is_fatal ev) (new_events start (main_rounds (const_env result_a None) input3 n start))"
    by (rule safe_env_never_fatal) (simp_all add: const_env_def result_a_def cnot01_def)
qed

text \<open>
  C7. If no fatal error is ever logged, the outer loop never returns; after any
  number \<open>n\<close> of rounds the run is still going, the calls to the synthesizer
  so far are those for the configurations of the input in the order of the slice,
  the same in each of the \<open>n\<close> rounds, and calls to the synthesizer and ends of
  evaluate-and-filter steps alternate: no call starts before the step of the call
  before it has ended. The two collaborators are functions of the model: a call
  to them returns.
\<close>

theorem campaign_never_halts:
  assumes "\<forall>n. list_all (\<lambda>ev. \<not> is_fatal ev) (new_events s (main_rounds env inp n s))"
  shows "main_loop env inp s = None
       \<and> (\<forall>n. fst (main_rounds env inp n s) = Running
            \<and> synth_calls (new_events s (main_rounds env inp n s)) =
                concat (replicate n
                  (map (\<lambda>c. (main_conf c, main_factories, main_truthVector inp)) (AcoConfigs inp)))
            \<and> alternating False (new_events s (main_rounds env inp n s)))"
proof -
  have run: "fst (main_rounds env inp n s) = Running" for n
  proof (cases "fst (main_rounds env inp n s)")
    case Running
    then show ?thesis .
  next
    case Exited
    then have "exit_shape Exited (new_events s (main_rounds env inp n s))"
      using rounds_exit_shape [of env inp n s] by simp
    then show ?thesis using exit_shape_fatal assms by blast
  qed
  then have "main_loop env inp s = None" by (simp add: main_loop_forever)
  then show ?thesis using run rounds_running_calls rounds_alternating by blast
qed

theorem campaign_never_halts_witness:
  "main_loop (const_env result_a None) input3 start = None
   \<and> fst (main_rounds (const_env result_a None) input3 2 start) = Running
   \<and> synth_calls (new_events start (main_rounds (const_env result_a None) input3 2 start)) =
       [(main_conf conf_a, main_factories, main_truthVector input3),
        (main_conf conf_b, main_factories, main_truthVector input3),
        (main_conf conf_a, main_factories, main_truthVector input3),
        (main_conf conf_b, main_factories, main_truthVector input3)]
   \<and> alternating False (new_events start (main_rounds (const_env result_a None) input3 2 start))"
proof -
  have "concat (replicate 2 (map (\<lambda>c. (main_conf c, main_factories, main_truthVector input3)) (AcoConfigs input3)))
        = [(main_conf conf_a, main_factories, main_truthVector input3),
           (main_conf conf_b, main_factories, main_truthVector input3),
           (main_conf conf_a, main_factories, main_truthVector input3),
           (main_conf conf_b, main_factories, main_truthVector input3)]"
    by (simp add: numeral_2_eq_2 input3_def)
  then show ?thesis
    using campaign_never_halts [OF const_env_never_fatal] by metis
qed

end
